theory Spec2Isabelle
  imports Complex_Main
begin

section \<open>Python values\<close>

text \<open>
  The agent passes around what \<^verbatim>\<open>json.loads\<close> and the element parser produce:
  \<^verbatim>\<open>None\<close>, booleans, unbounded integers, floats, strings, lists and dictionaries with
  string keys. A dictionary is an association list in insertion order (its keys are
  distinct in Python; \<open>map_of\<close> reads the first binding). A string is a list of
  characters, one \<open>char\<close> per code point below 256. Values of other Python types
  (tuples, sets, bytes, complex numbers, dictionary keys that are not strings), which
  a parsed element could in principle contain, are outside the model, as are strings
  with code points from 256 on.

  A float is an IEEE 754 double: a finite value is the rational it denotes, negative
  zero and the three special values are constructors of their own.
\<close>

datatype pyfloat = Fin rat | NegZero | PosInf | NegInf | NaN

datatype pyval =
    PNone
  | PBool bool
  | PInt int
  | PFloat pyfloat
  | PStr string
  | PList "pyval list"
  | PDict "(string \<times> pyval) list"

type_synonym pydict = "(string \<times> pyval) list"

datatype pyerr =
    TypeError | ValueError | OverflowError | KeyError | IndexError | ZeroDivisionError
  | DeviceError

text \<open>Sequencing of computations that may raise: the first exception wins.\<close>

definition bindE :: "pyerr + 'a \<Rightarrow> ('a \<Rightarrow> pyerr + 'b) \<Rightarrow> pyerr + 'b" where
  "bindE m f = (case m of Inl e \<Rightarrow> Inl e | Inr v \<Rightarrow> f v)"

subsection \<open>Dictionaries\<close>

text \<open>\<^verbatim>\<open>d.get(k)\<close> and \<^verbatim>\<open>d.get(k, default)\<close>.\<close>

definition dict_get :: "pydict \<Rightarrow> string \<Rightarrow> pyval" where
  "dict_get d k = (case map_of d k of None \<Rightarrow> PNone | Some v \<Rightarrow> v)"

definition dict_get_default :: "pydict \<Rightarrow> string \<Rightarrow> pyval \<Rightarrow> pyval" where
  "dict_get_default d k dflt = (case map_of d k of None \<Rightarrow> dflt | Some v \<Rightarrow> v)"

subsection \<open>Doubles: round to nearest, ties to even\<close>

definition pow2 :: "int \<Rightarrow> rat" where
  "pow2 k = (if 0 \<le> k then 2 ^ nat k else 1 / 2 ^ nat (- k))"

function bit_length :: "int \<Rightarrow> int" where
  "bit_length n = (if n \<le> 0 then 0 else 1 + bit_length (n div 2))"
  by pat_completeness auto
termination
  by (relation "measure nat") auto

text \<open>For \<open>0 < q\<close>, the exponent \<open>e\<close> with \<open>2 ^ e \<le> q < 2 ^ (e + 1)\<close>.\<close>

definition ilog2 :: "rat \<Rightarrow> int" where
  "ilog2 q = (case quotient_of q of (n, d) \<Rightarrow>
     (let k = bit_length n - bit_length d
      in if q < pow2 k then k - 1 else k))"

definition round_half_even :: "rat \<Rightarrow> int" where
  "round_half_even q = (let f = \<lfloor>q\<rfloor>; r = q - of_int f
     in if r < 1 / 2 then f else if 1 / 2 < r then f + 1 else if even f then f else f + 1)"

text \<open>
  The nearest number with a 53-bit significand and exponent at least \<open>-1074\<close>
  (normal and subnormal doubles, the exponent unbounded above).
\<close>

definition round_double :: "rat \<Rightarrow> rat" where
  "round_double q = (if q = 0 then 0 else
     (let u = pow2 (max (ilog2 \<bar>q\<bar> - 52) (- 1074))
      in of_int (round_half_even (q / u)) * u))"

text \<open>
  The double an exact result rounds to; \<open>neg\<close> is the sign a zero result takes.
  A rounded magnitude of \<open>2 ^ 1024\<close> or more, that is an exponent of 1024 or more,
  overflows to an infinity.
\<close>

definition fround :: "bool \<Rightarrow> rat \<Rightarrow> pyfloat" where
  "fround neg q = (let r = round_double q
     in if r = 0 then (if neg then NegZero else Fin 0)
        else if 1024 \<le> ilog2 \<bar>r\<bar> then (if r < 0 then NegInf else PosInf)
        else Fin r)"

text \<open>The float a decimal literal such as \<^verbatim>\<open>0.8\<close> denotes.\<close>

definition float_lit :: "rat \<Rightarrow> pyval" where
  "float_lit q = PFloat (fround (q < 0) q)"

fun fval :: "pyfloat \<Rightarrow> rat option" where
  "fval (Fin q) = Some q"
| "fval NegZero = Some 0"
| "fval PosInf = None"
| "fval NegInf = None"
| "fval NaN = None"

fun fneg :: "pyfloat \<Rightarrow> bool" where
  "fneg (Fin q) = (q < 0)"
| "fneg NegZero = True"
| "fneg PosInf = False"
| "fneg NegInf = True"
| "fneg NaN = False"

definition finf :: "bool \<Rightarrow> pyfloat" where
  "finf neg = (if neg then NegInf else PosInf)"

definition fzero :: "bool \<Rightarrow> pyfloat" where
  "fzero neg = (if neg then NegZero else Fin 0)"

definition fadd :: "pyfloat \<Rightarrow> pyfloat \<Rightarrow> pyfloat" where
  "fadd x y =
     (if x = NaN \<or> y = NaN then NaN
      else case (fval x, fval y) of
        (Some a, Some b) \<Rightarrow> fround (x = NegZero \<and> y = NegZero) (a + b)
      | (Some a, None) \<Rightarrow> y
      | (None, Some b) \<Rightarrow> x
      | (None, None) \<Rightarrow> (if x = y then x else NaN))"

definition fmul :: "pyfloat \<Rightarrow> pyfloat \<Rightarrow> pyfloat" where
  "fmul x y =
     (if x = NaN \<or> y = NaN then NaN
      else case (fval x, fval y) of
        (Some a, Some b) \<Rightarrow> fround (fneg x \<noteq> fneg y) (a * b)
      | (Some a, None) \<Rightarrow> (if a = 0 then NaN else finf (fneg x \<noteq> fneg y))
      | (None, Some b) \<Rightarrow> (if b = 0 then NaN else finf (fneg x \<noteq> fneg y))
      | (None, None) \<Rightarrow> finf (fneg x \<noteq> fneg y))"

text \<open>Float division; Python raises on a zero divisor before the hardware divides.\<close>

definition fdiv :: "pyfloat \<Rightarrow> pyfloat \<Rightarrow> pyerr + pyfloat" where
  "fdiv x y =
     (if fval y = Some 0 then Inl ZeroDivisionError
      else if x = NaN \<or> y = NaN then Inr NaN
      else case (fval x, fval y) of
        (Some a, Some b) \<Rightarrow> Inr (fround (fneg x \<noteq> fneg y) (a / b))
      | (Some a, None) \<Rightarrow> Inr (fzero (fneg x \<noteq> fneg y))
      | (None, Some b) \<Rightarrow> Inr (finf (fneg x \<noteq> fneg y))
      | (None, None) \<Rightarrow> Inr NaN)"

text \<open>\<^verbatim>\<open>float(i)\<close> for an integer: correctly rounded, OverflowError beyond the range.\<close>

definition float_of_int :: "int \<Rightarrow> pyerr + pyfloat" where
  "float_of_int i = (case fround False (of_int i) of
       PosInf \<Rightarrow> Inl OverflowError
     | NegInf \<Rightarrow> Inl OverflowError
     | f \<Rightarrow> Inr f)"

text \<open>\<^verbatim>\<open>int(x)\<close> for a float: truncation toward zero.\<close>

fun int_of_float :: "pyfloat \<Rightarrow> pyerr + int" where
  "int_of_float (Fin q) = Inr (if 0 \<le> q then \<lfloor>q\<rfloor> else \<lceil>q\<rceil>)"
| "int_of_float NegZero = Inr 0"
| "int_of_float PosInf = Inl OverflowError"
| "int_of_float NegInf = Inl OverflowError"
| "int_of_float NaN = Inl ValueError"

fun float_eq :: "pyfloat \<Rightarrow> pyfloat \<Rightarrow> bool" where
  "float_eq NaN y = False"
| "float_eq x NaN = False"
| "float_eq PosInf y = (y = PosInf)"
| "float_eq NegInf y = (y = NegInf)"
| "float_eq x y = (fval x = fval y)"

subsection \<open>Truthiness and equality\<close>

text \<open>\<^verbatim>\<open>bool(x)\<close>, as \<^verbatim>\<open>if x\<close> and \<^verbatim>\<open>not x\<close> read it.\<close>

fun py_truthy :: "pyval \<Rightarrow> bool" where
  "py_truthy PNone = False"
| "py_truthy (PBool b) = b"
| "py_truthy (PInt i) = (i \<noteq> 0)"
| "py_truthy (PFloat f) = (fval f \<noteq> Some 0)"
| "py_truthy (PStr s) = (s \<noteq> [])"
| "py_truthy (PList xs) = (xs \<noteq> [])"
| "py_truthy (PDict d) = (d \<noteq> [])"

datatype pynum = NumI int | NumF pyfloat

fun as_num :: "pyval \<Rightarrow> pynum option" where
  "as_num (PBool b) = Some (NumI (if b then 1 else 0))"
| "as_num (PInt i) = Some (NumI i)"
| "as_num (PFloat f) = Some (NumF f)"
| "as_num PNone = None"
| "as_num (PStr s) = None"
| "as_num (PList xs) = None"
| "as_num (PDict d) = None"

fun num_eq :: "pynum \<Rightarrow> pynum \<Rightarrow> bool" where
  "num_eq (NumI i) (NumI j) = (i = j)"
| "num_eq (NumI i) (NumF g) = (fval g = Some (of_int i))"
| "num_eq (NumF f) (NumI j) = (fval f = Some (of_int j))"
| "num_eq (NumF f) (NumF g) = float_eq f g"

text \<open>
  \<^verbatim>\<open>a == b\<close>: numbers compare by value across bool, int and float, lists
  elementwise, dictionaries as mappings; values of unrelated types are unequal.
\<close>

fun py_eq :: "pyval \<Rightarrow> pyval \<Rightarrow> bool" where
  "py_eq PNone PNone = True"
| "py_eq (PStr s) (PStr t) = (s = t)"
| "py_eq (PList xs) (PList ys) = list_all2 py_eq xs ys"
| "py_eq (PDict xs) (PDict ys) =
     (length xs = length ys \<and>
      list_all (\<lambda>(k, v). case map_of ys k of None \<Rightarrow> False | Some w \<Rightarrow> py_eq v w) xs)"
| "py_eq a b = (case (as_num a, as_num b) of (Some x, Some y) \<Rightarrow> num_eq x y | _ \<Rightarrow> False)"

subsection \<open>Arithmetic, indexing, conversion\<close>

text \<open>
  What the interpreter supplies and this development leaves open: the shortest
  round-trip text of a float, the quoted form of a string, and the integer a string
  denotes for \<^verbatim>\<open>int(s)\<close> (\<open>None\<close> where it raises ValueError).
\<close>

record runtime =
  repr_float :: "pyfloat \<Rightarrow> string"
  repr_str :: "string \<Rightarrow> string"
  int_of_str :: "string \<Rightarrow> int option"

definition num_float :: "pynum \<Rightarrow> pyerr + pyfloat" where
  "num_float x = (case x of NumI i \<Rightarrow> float_of_int i | NumF f \<Rightarrow> Inr f)"

text \<open>\<^verbatim>\<open>s * n\<close> for a sequence: \<open>n\<close> copies, none when \<open>n \<le> 0\<close>.\<close>

definition seq_repeat :: "int \<Rightarrow> 'a list \<Rightarrow> 'a list" where
  "seq_repeat n xs = concat (replicate (nat n) xs)"

definition py_add :: "pyval \<Rightarrow> pyval \<Rightarrow> pyerr + pyval" where
  "py_add a b =
     (case (as_num a, as_num b) of
        (Some (NumI i), Some (NumI j)) \<Rightarrow> Inr (PInt (i + j))
      | (Some x, Some y) \<Rightarrow>
          bindE (num_float x) (\<lambda>f. bindE (num_float y) (\<lambda>g. Inr (PFloat (fadd f g))))
      | _ \<Rightarrow>
         (case (a, b) of
            (PStr s, PStr t) \<Rightarrow> Inr (PStr (s @ t))
          | (PList xs, PList ys) \<Rightarrow> Inr (PList (xs @ ys))
          | _ \<Rightarrow> Inl TypeError))"

definition py_mul :: "pyval \<Rightarrow> pyval \<Rightarrow> pyerr + pyval" where
  "py_mul a b =
     (case (as_num a, as_num b) of
        (Some (NumI i), Some (NumI j)) \<Rightarrow> Inr (PInt (i * j))
      | (Some x, Some y) \<Rightarrow>
          bindE (num_float x) (\<lambda>f. bindE (num_float y) (\<lambda>g. Inr (PFloat (fmul f g))))
      | (None, Some (NumI n)) \<Rightarrow>
         (case a of
            PStr s \<Rightarrow> Inr (PStr (seq_repeat n s))
          | PList xs \<Rightarrow> Inr (PList (seq_repeat n xs))
          | _ \<Rightarrow> Inl TypeError)
      | (Some (NumI n), None) \<Rightarrow>
         (case b of
            PStr s \<Rightarrow> Inr (PStr (seq_repeat n s))
          | PList xs \<Rightarrow> Inr (PList (seq_repeat n xs))
          | _ \<Rightarrow> Inl TypeError)
      | _ \<Rightarrow> Inl TypeError)"

text \<open>
  True division \<^verbatim>\<open>a / b\<close>. Two integers give the correctly rounded quotient
  (OverflowError when it is out of range); otherwise both operands become floats.
\<close>

definition py_truediv :: "pyval \<Rightarrow> pyval \<Rightarrow> pyerr + pyval" where
  "py_truediv a b =
     (case (as_num a, as_num b) of
        (Some (NumI i), Some (NumI j)) \<Rightarrow>
          (if j = 0 then Inl ZeroDivisionError
           else case fround ((i < 0) \<noteq> (j < 0)) (of_int i / of_int j) of
                  PosInf \<Rightarrow> Inl OverflowError
                | NegInf \<Rightarrow> Inl OverflowError
                | f \<Rightarrow> Inr (PFloat f))
      | (Some x, Some y) \<Rightarrow>
          bindE (num_float x) (\<lambda>f. bindE (num_float y) (\<lambda>g.
            bindE (fdiv f g) (\<lambda>h. Inr (PFloat h))))
      | _ \<Rightarrow> Inl TypeError)"

text \<open>\<^verbatim>\<open>int(x)\<close>.\<close>

fun py_int :: "runtime \<Rightarrow> pyval \<Rightarrow> pyerr + int" where
  "py_int rt PNone = Inl TypeError"
| "py_int rt (PBool b) = Inr (if b then 1 else 0)"
| "py_int rt (PInt i) = Inr i"
| "py_int rt (PFloat f) = int_of_float f"
| "py_int rt (PStr s) = (case int_of_str rt s of None \<Rightarrow> Inl ValueError | Some i \<Rightarrow> Inr i)"
| "py_int rt (PList xs) = Inl TypeError"
| "py_int rt (PDict d) = Inl TypeError"

text \<open>\<^verbatim>\<open>len(x)\<close>.\<close>

fun py_len :: "pyval \<Rightarrow> pyerr + nat" where
  "py_len (PStr s) = Inr (length s)"
| "py_len (PList xs) = Inr (length xs)"
| "py_len (PDict d) = Inr (length d)"
| "py_len PNone = Inl TypeError"
| "py_len (PBool b) = Inl TypeError"
| "py_len (PInt i) = Inl TypeError"
| "py_len (PFloat f) = Inl TypeError"

text \<open>
  \<^verbatim>\<open>x[i]\<close> for a constant index \<open>i \<ge> 0\<close>. A dictionary here has string keys
  only, so an integer subscript is a KeyError.
\<close>

fun py_getitem :: "pyval \<Rightarrow> nat \<Rightarrow> pyerr + pyval" where
  "py_getitem (PList xs) i = (if i < length xs then Inr (xs ! i) else Inl IndexError)"
| "py_getitem (PStr s) i = (if i < length s then Inr (PStr [s ! i]) else Inl IndexError)"
| "py_getitem (PDict d) i = Inl KeyError"
| "py_getitem PNone i = Inl TypeError"
| "py_getitem (PBool b) i = Inl TypeError"
| "py_getitem (PInt n) i = Inl TypeError"
| "py_getitem (PFloat f) i = Inl TypeError"

subsection \<open>Text\<close>

fun join_with :: "string \<Rightarrow> string list \<Rightarrow> string" where
  "join_with sep [] = []"
| "join_with sep [x] = x"
| "join_with sep (x # y # ys) = x @ sep @ join_with sep (y # ys)"

function show_nat :: "nat \<Rightarrow> string" where
  "show_nat n =
     (if n < 10 then [''0123456789'' ! n]
      else show_nat (n div 10) @ [''0123456789'' ! (n mod 10)])"
  by pat_completeness auto
termination
  by (relation "measure id") auto

definition show_int :: "int \<Rightarrow> string" where
  "show_int i = (if i < 0 then CHR ''-'' # show_nat (nat (- i)) else show_nat (nat i))"

text \<open>\<^verbatim>\<open>repr(x)\<close> and \<^verbatim>\<open>str(x)\<close>; they differ on a string at the top only.\<close>

fun py_repr :: "runtime \<Rightarrow> pyval \<Rightarrow> string" where
  "py_repr rt PNone = ''None''"
| "py_repr rt (PBool b) = (if b then ''True'' else ''False'')"
| "py_repr rt (PInt i) = show_int i"
| "py_repr rt (PFloat f) = repr_float rt f"
| "py_repr rt (PStr s) = repr_str rt s"
| "py_repr rt (PList xs) = ''['' @ join_with '', '' (map (py_repr rt) xs) @ '']''"
| "py_repr rt (PDict kvs) =
     ''{'' @ join_with '', '' (map (\<lambda>(k, v). repr_str rt k @ '': '' @ py_repr rt v) kvs) @ ''}''"

definition py_str :: "runtime \<Rightarrow> pyval \<Rightarrow> string" where
  "py_str rt v = (case v of PStr s \<Rightarrow> s | _ \<Rightarrow> py_repr rt v)"

text \<open>The characters \<^verbatim>\<open>str.strip()\<close> removes, among code points below 256.\<close>

definition py_isspace :: "char \<Rightarrow> bool" where
  "py_isspace c = ((of_char c :: nat) \<in> set [9, 10, 11, 12, 13, 28, 29, 30, 31, 32, 133, 160])"

definition py_strip :: "string \<Rightarrow> string" where
  "py_strip s = rev (dropWhile py_isspace (rev (dropWhile py_isspace s)))"

text \<open>\<^verbatim>\<open>x[:20]\<close>: a prefix of a string or a list, TypeError on anything else.\<close>

fun py_slice_to :: "nat \<Rightarrow> pyval \<Rightarrow> pyerr + pyval" where
  "py_slice_to n (PStr s) = Inr (PStr (take n s))"
| "py_slice_to n (PList xs) = Inr (PList (take n xs))"
| "py_slice_to n PNone = Inl TypeError"
| "py_slice_to n (PBool b) = Inl TypeError"
| "py_slice_to n (PInt i) = Inl TypeError"
| "py_slice_to n (PFloat f) = Inl TypeError"
| "py_slice_to n (PDict d) = Inl TypeError"

text \<open>\<^verbatim>\<open>xs[i:]\<close> for any integer \<open>i\<close>: a negative \<open>i\<close> counts from the end.\<close>

definition py_slice_from :: "int \<Rightarrow> 'a list \<Rightarrow> 'a list" where
  "py_slice_from i xs =
     (if i < 0 then drop (nat (int (length xs) + i)) xs else drop (nat i) xs)"

section \<open>config.py\<close>

definition MAX_STEPS :: nat where
  "MAX_STEPS = 15"

definition DEFAULT_WAIT_TIME :: pyval where
  "DEFAULT_WAIT_TIME = PFloat (Fin 2)"

definition ACTION_HISTORY_LENGTH :: int where
  "ACTION_HISTORY_LENGTH = 5"

section \<open>The device collaborator\<close>

text \<open>
  The calls \<^verbatim>\<open>execute_action\<close> issues: the four methods of the controller it is
  handed, and its own \<^verbatim>\<open>time.sleep\<close>. The controller is an oracle \<open>adb\<close> that
  answers each call: for \<open>Tap\<close>, \<open>Swipe\<close> and \<open>InputText\<close> the success flag the
  method returns (it catches every exception of the transport); for \<open>Wait\<close>, which
  returns nothing, \<open>False\<close> stands for the exception \<^verbatim>\<open>time.sleep\<close> raises on an
  argument that is not a non-negative number.
\<close>

datatype effect =
    Tap int int
  | Swipe int int int int pyval
  | InputText pyval
  | Wait pyval
  | Sleep pyval

section \<open>action\_executor.py\<close>

text \<open>\<^verbatim>\<open>next((e for e in (omni_elements or []) if e.get('index') == idx), None)\<close>\<close>

definition elements_or_empty :: "pydict list option \<Rightarrow> pydict list" where
  "elements_or_empty omni_elements = (case omni_elements of None \<Rightarrow> [] | Some es \<Rightarrow> es)"

definition find_element :: "pydict list option \<Rightarrow> pyval \<Rightarrow> pydict option" where
  "find_element omni_elements idx =
     List.find (\<lambda>e. py_eq (dict_get e ''index'') idx) (elements_or_empty omni_elements)"

text \<open>Truthiness of the lookup's result: \<^verbatim>\<open>None\<close> and the empty dictionary are falsy.\<close>

definition element_truthy :: "pydict option \<Rightarrow> bool" where
  "element_truthy target_element = (case target_element of None \<Rightarrow> False | Some e \<Rightarrow> e \<noteq> [])"

definition quote :: string where
  "quote = [CHR 0x27]"

subsection \<open>summarize\_action\<close>

text \<open>The body of the \<^verbatim>\<open>try\<close>: either the summary or the exception raised.\<close>

definition summarize_try ::
  "runtime \<Rightarrow> pydict \<Rightarrow> pyval \<Rightarrow> string \<Rightarrow> pydict list option \<Rightarrow> pyerr + string" where
  "summarize_try rt action_data action_type summary omni_elements =
     (if py_eq action_type (PStr ''TAP'') then
        (let idx = dict_get action_data ''element_index'';
             target_element = find_element omni_elements idx;
             content =
               (case target_element of
                  None \<Rightarrow> quote @ ''Element not found'' @ quote
                | Some e \<Rightarrow>
                   (if e = [] then quote @ ''Element not found'' @ quote
                    else quote @
                      py_strip (take 20 (py_str rt (dict_get_default e ''content'' (PStr ''N/A''))))
                      @ quote))
         in Inr (summary @ '' (Index: '' @ py_str rt idx @ '', Content: '' @ content @ '')''))
      else if py_eq action_type (PStr ''INPUT_TEXT'') then
        (let txt = dict_get_default action_data ''text'' (PStr []);
             idx = dict_get action_data ''element_index''
         in bindE (py_slice_to 20 txt) (\<lambda>t.
              Inr (summary @ '' (Text: '' @ quote @ py_str rt t @ ''...'' @ quote @ '', Index: ''
                   @ (if idx = PNone then ''N/A'' else py_str rt idx) @ '')'')))
      else if py_eq action_type (PStr ''SWIPE'') then
        Inr (summary @ '' (From: ('' @ py_str rt (dict_get action_data ''start_x'') @ '',''
             @ py_str rt (dict_get action_data ''start_y'') @ '') To: (''
             @ py_str rt (dict_get action_data ''end_x'') @ '',''
             @ py_str rt (dict_get action_data ''end_y'') @ ''))'')
      else if py_eq action_type (PStr ''WAIT'') then
        Inr (summary @ '' ('' @ py_str rt (dict_get action_data ''duration_seconds'') @ ''s)'')
      else Inr summary)"

text \<open>
  The whole function: the two statements before the \<^verbatim>\<open>try\<close>, the body, and the
  handler that replaces any exception by \<^verbatim>\<open>str(action_data)\<close>. The result is a
  sum as for every function that may raise.
\<close>

definition summarize_action :: "runtime \<Rightarrow> pydict \<Rightarrow> pydict list option \<Rightarrow> pyerr + string" where
  "summarize_action rt action_data omni_elements =
     (let action_type = dict_get action_data ''action'';
          summary = ''Action: '' @ py_str rt action_type
      in case summarize_try rt action_data action_type summary omni_elements of
           Inl e \<Rightarrow> Inr (py_str rt (PDict action_data))
         | Inr s \<Rightarrow> Inr s)"

subsection \<open>execute\_action\<close>

text \<open>\<^verbatim>\<open>not bbox or len(bbox) != 4\<close>\<close>

definition bbox_invalid :: "pyval \<Rightarrow> pyerr + bool" where
  "bbox_invalid bbox =
     (if \<not> py_truthy bbox then Inr True else bindE (py_len bbox) (\<lambda>n. Inr (n \<noteq> 4)))"

text \<open>
  The midpoint of the box in pixels, as both the TAP branch and the pre-tap of
  INPUT\_TEXT compute it:
  \<^verbatim>\<open>center_x_rel = (bbox[0] + bbox[2]) / 2; center_y_rel = (bbox[1] + bbox[3]) / 2;
  tap_x = int(center_x_rel * width); tap_y = int(center_y_rel * height)\<close>
\<close>

definition tap_point :: "runtime \<Rightarrow> pyval \<Rightarrow> int \<Rightarrow> int \<Rightarrow> pyerr + (int \<times> int)" where
  "tap_point rt bbox width height =
     bindE (py_getitem bbox 0) (\<lambda>b0.
     bindE (py_getitem bbox 2) (\<lambda>b2.
     bindE (py_add b0 b2) (\<lambda>sx.
     bindE (py_truediv sx (PInt 2)) (\<lambda>center_x_rel.
     bindE (py_getitem bbox 1) (\<lambda>b1.
     bindE (py_getitem bbox 3) (\<lambda>b3.
     bindE (py_add b1 b3) (\<lambda>sy.
     bindE (py_truediv sy (PInt 2)) (\<lambda>center_y_rel.
     bindE (py_mul center_x_rel (PInt width)) (\<lambda>px.
     bindE (py_int rt px) (\<lambda>tap_x.
     bindE (py_mul center_y_rel (PInt height)) (\<lambda>py.
     bindE (py_int rt py) (\<lambda>tap_y.
     Inr (tap_x, tap_y)))))))))))))"

text \<open>
  How a branch of the \<^verbatim>\<open>if/elif\<close> chain ends: with a \<^verbatim>\<open>return\<close>, or by
  falling through to the code after the chain with \<^verbatim>\<open>success\<close> set.
\<close>

datatype outcome = Return bool | Success bool

type_synonym branch = "effect list \<times> (pyerr + outcome)"

definition tap_branch ::
  "runtime \<Rightarrow> pydict \<Rightarrow> (effect \<Rightarrow> bool) \<Rightarrow> int \<Rightarrow> int \<Rightarrow> pydict list option \<Rightarrow> branch" where
  "tap_branch rt action_data adb width height omni_elements =
     (let idx = dict_get action_data ''element_index''
      in case find_element omni_elements idx of
           None \<Rightarrow> ([], Inr (Return True))
         | Some target_element \<Rightarrow>
            (if target_element = [] then ([], Inr (Return True))
             else
               (let bbox = dict_get target_element ''bbox''
                in case bbox_invalid bbox of
                     Inl e \<Rightarrow> ([], Inl e)
                   | Inr True \<Rightarrow> ([], Inr (Return True))
                   | Inr False \<Rightarrow>
                      (case tap_point rt bbox width height of
                         Inl e \<Rightarrow> ([], Inl e)
                       | Inr (tap_x, tap_y) \<Rightarrow>
                           ([Tap tap_x tap_y], Inr (Success (adb (Tap tap_x tap_y))))))))"

definition input_text_branch ::
  "runtime \<Rightarrow> pydict \<Rightarrow> (effect \<Rightarrow> bool) \<Rightarrow> int \<Rightarrow> int \<Rightarrow> pydict list option \<Rightarrow> branch" where
  "input_text_branch rt action_data adb width height omni_elements =
     (let text_to_input = dict_get action_data ''text'';
          idx = dict_get action_data ''element_index''
      in if text_to_input = PNone then ([], Inr (Return True))
         else if idx = PNone then
           ([InputText text_to_input], Inr (Success (adb (InputText text_to_input))))
         else
           (case find_element omni_elements idx of
              None \<Rightarrow> ([], Inr (Return True))
            | Some target_element \<Rightarrow>
               (if target_element = [] then ([], Inr (Return True))
                else
                  (let bbox = dict_get target_element ''bbox''
                   in case bbox_invalid bbox of
                        Inl e \<Rightarrow> ([], Inl e)
                      | Inr True \<Rightarrow> ([], Inr (Return True))
                      | Inr False \<Rightarrow>
                         (case tap_point rt bbox width height of
                            Inl e \<Rightarrow> ([], Inl e)
                          | Inr (tap_x, tap_y) \<Rightarrow>
                             (if adb (Tap tap_x tap_y) then
                                ([Tap tap_x tap_y, Sleep (PFloat (Fin (1 / 2))),
                                  InputText text_to_input],
                                 Inr (Success (adb (InputText text_to_input))))
                              else ([Tap tap_x tap_y], Inr (Return True))))))))"

text \<open>
  SCROLL\_DOWN swipes from 80\% to 20\% of the height, SCROLL\_UP back:
  \<^verbatim>\<open>start_x = width // 2; start_y = int(height * a); end_y = int(height * b)\<close>.
\<close>

definition scroll_branch ::
  "runtime \<Rightarrow> (effect \<Rightarrow> bool) \<Rightarrow> int \<Rightarrow> int \<Rightarrow> rat \<Rightarrow> rat \<Rightarrow> branch" where
  "scroll_branch rt adb width height a b =
     (let start_x = width div 2
      in case bindE (py_mul (PInt height) (float_lit a)) (\<lambda>p.
              bindE (py_int rt p) (\<lambda>start_y.
              bindE (py_mul (PInt height) (float_lit b)) (\<lambda>q.
              bindE (py_int rt q) (\<lambda>end_y. Inr (start_y, end_y))))) of
           Inl e \<Rightarrow> ([], Inl e)
         | Inr (start_y, end_y) \<Rightarrow>
             ([Swipe start_x start_y start_x end_y (PInt 400)],
              Inr (Success (adb (Swipe start_x start_y start_x end_y (PInt 400))))))"

text \<open>\<^verbatim>\<open>int(v * extent)\<close>\<close>

definition to_pixel :: "runtime \<Rightarrow> pyval \<Rightarrow> int \<Rightarrow> pyerr + int" where
  "to_pixel rt v extent = bindE (py_mul v (PInt extent)) (py_int rt)"

definition swipe_branch ::
  "runtime \<Rightarrow> pydict \<Rightarrow> (effect \<Rightarrow> bool) \<Rightarrow> int \<Rightarrow> int \<Rightarrow> branch" where
  "swipe_branch rt action_data adb width height =
     (let sx_rel = dict_get action_data ''start_x'';
          sy_rel = dict_get action_data ''start_y'';
          ex_rel = dict_get action_data ''end_x'';
          ey_rel = dict_get action_data ''end_y'';
          duration = dict_get_default action_data ''duration'' (PInt 300)
      in if sx_rel = PNone \<or> sy_rel = PNone \<or> ex_rel = PNone \<or> ey_rel = PNone
         then ([], Inr (Return True))
         else
           (case bindE (to_pixel rt sx_rel width) (\<lambda>sx.
                 bindE (to_pixel rt sy_rel height) (\<lambda>sy.
                 bindE (to_pixel rt ex_rel width) (\<lambda>ex.
                 bindE (to_pixel rt ey_rel height) (\<lambda>ey. Inr (sx, sy, ex, ey))))) of
              Inl e \<Rightarrow> ([], Inl e)
            | Inr (sx, sy, ex, ey) \<Rightarrow>
                ([Swipe sx sy ex ey duration],
                 Inr (Success (adb (Swipe sx sy ex ey duration))))))"

definition wait_branch :: "pydict \<Rightarrow> (effect \<Rightarrow> bool) \<Rightarrow> branch" where
  "wait_branch action_data adb =
     (let duration = dict_get_default action_data ''duration_seconds'' DEFAULT_WAIT_TIME
      in ([Wait duration], if adb (Wait duration) then Inr (Success True) else Inl DeviceError))"

text \<open>The \<^verbatim>\<open>if/elif\<close> chain on the action type.\<close>

definition dispatch ::
  "runtime \<Rightarrow> pydict \<Rightarrow> pyval \<Rightarrow> (effect \<Rightarrow> bool) \<Rightarrow> int \<Rightarrow> int \<Rightarrow> pydict list option \<Rightarrow> branch" where
  "dispatch rt action_data action_type adb width height omni_elements =
     (if py_eq action_type (PStr ''TAP'') then
        tap_branch rt action_data adb width height omni_elements
      else if py_eq action_type (PStr ''INPUT_TEXT'') then
        input_text_branch rt action_data adb width height omni_elements
      else if py_eq action_type (PStr ''SCROLL_DOWN'') then
        scroll_branch rt adb width height (4 / 5) (1 / 5)
      else if py_eq action_type (PStr ''SCROLL_UP'') then
        scroll_branch rt adb width height (1 / 5) (4 / 5)
      else if py_eq action_type (PStr ''SWIPE'') then
        swipe_branch rt action_data adb width height
      else if py_eq action_type (PStr ''WAIT'') then
        wait_branch action_data adb
      else if py_eq action_type (PStr ''DONE'') then ([], Inr (Return False))
      else ([], Inr (Return True)))"

text \<open>
  The body of the \<^verbatim>\<open>try\<close>: the chain, then the settle wait after a successful
  action other than WAIT and DONE, then \<^verbatim>\<open>return True\<close> on either value of
  \<^verbatim>\<open>success\<close>. An exception keeps the calls already issued.
\<close>

definition execute_try ::
  "runtime \<Rightarrow> pydict \<Rightarrow> pyval \<Rightarrow> (effect \<Rightarrow> bool) \<Rightarrow> int \<Rightarrow> int \<Rightarrow> pydict list option
     \<Rightarrow> effect list \<times> (pyerr + bool)" where
  "execute_try rt action_data action_type adb width height omni_elements =
     (case dispatch rt action_data action_type adb width height omni_elements of
        (effs, Inl e) \<Rightarrow> (effs, Inl e)
      | (effs, Inr (Return b)) \<Rightarrow> (effs, Inr b)
      | (effs, Inr (Success success)) \<Rightarrow>
          (if success \<and> \<not> (py_eq action_type (PStr ''WAIT'') \<or> py_eq action_type (PStr ''DONE''))
           then (effs @ [Wait DEFAULT_WAIT_TIME],
                 if adb (Wait DEFAULT_WAIT_TIME) then Inr True else Inl DeviceError)
           else (effs, Inr True)))"

text \<open>
  The whole function: the continue flag and the calls issued, in order. The
  \<^verbatim>\<open>except Exception\<close> handler turns every exception of the body into
  \<^verbatim>\<open>return True\<close>.
\<close>

definition execute_action ::
  "runtime \<Rightarrow> pydict \<Rightarrow> (effect \<Rightarrow> bool) \<Rightarrow> int \<times> int \<Rightarrow> pydict list option
     \<Rightarrow> bool \<times> effect list" where
  "execute_action rt action_data adb screen_dimensions omni_elements =
     (let action_type = dict_get action_data ''action''
      in if \<not> py_truthy action_type then (False, [])
         else
           (let element_index = dict_get action_data ''element_index''
            in if (py_eq action_type (PStr ''TAP'') \<or> py_eq action_type (PStr ''INPUT_TEXT''))
                  \<and> element_index \<noteq> PNone
                  \<and> \<not> element_truthy (find_element omni_elements element_index)
               then (True, [])
               else
                 (case screen_dimensions of (width, height) \<Rightarrow>
                    (case execute_try rt action_data action_type adb width height omni_elements of
                       (effs, Inl e) \<Rightarrow> (True, effs)
                     | (effs, Inr b) \<Rightarrow> (b, effs)))))"

section \<open>main.py: the agent loop\<close>

text \<open>
  What the collaborators answer at one step: whether the screenshot was taken, the
  elements and the annotated image path of \<^verbatim>\<open>call_omniparser_v2\<close> (\<open>None\<close> for
  no elements), the action and reasoning of \<^verbatim>\<open>get_llm_action\<close> (\<open>None\<close> for its
  \<^verbatim>\<open>(None, None)\<close>), and the device's answers to the executor's calls. A run of
  the loop is determined by these answers, step by step.
\<close>

record step_env =
  screenshot_ok :: bool
  omniparser :: "pydict list option \<times> pyval"
  llm :: "(pydict \<times> pyval) option"
  device :: "effect \<Rightarrow> bool"

record history_entry =
  h_step :: nat
  h_summary :: string
  h_reasoning :: pyval
  h_action_data :: pydict

text \<open>
  What the loop does that an observer sees, tagged with the 1-based step: the three
  collaborator calls (the decision request with the history it is given), the
  repetition warning, the execution with the device calls it made, and the append
  to the history.
\<close>

datatype event =
    Screenshot nat
  | Omniparser nat
  | LLM nat "history_entry list"
  | LoopWarning nat string
  | Execute nat pydict "effect list"
  | Append nat history_entry

text \<open>
  The ways out of the loop: the three \<^verbatim>\<open>break\<close>s, the \<^verbatim>\<open>else\<close> of the
  \<^verbatim>\<open>for\<close>, and an exception that nothing catches.
\<close>

datatype exit_reason =
    ScreenshotFailed
  | LLMFailed
  | ExecutorStop
  | MaxStepsReached
  | Crashed pyerr

record loop_state =
  action_history :: "history_entry list"
  last_action_summary :: "string option"
  exit_reason :: "exit_reason option"
  events :: "event list"

definition initial_state :: loop_state where
  "initial_state =
     \<lparr>action_history = [], last_action_summary = None, exit_reason = None, events = []\<rparr>"

text \<open>One iteration of the \<^verbatim>\<open>for\<close> body, for the 0-based \<open>stp\<close>.\<close>

definition loop_body ::
  "runtime \<Rightarrow> int \<times> int \<Rightarrow> step_env \<Rightarrow> nat \<Rightarrow> loop_state \<Rightarrow> loop_state" where
  "loop_body rt screen_dims env stp s =
     (let current_step = stp + 1;
          s1 = s\<lparr>events := events s @ [Screenshot current_step]\<rparr>
      in if \<not> screenshot_ok env then s1\<lparr>exit_reason := Some ScreenshotFailed\<rparr>
         else
           (let omni_elements = fst (omniparser env);
                s2 = s1\<lparr>events := events s1 @
                       [Omniparser current_step, LLM current_step (action_history s)]\<rparr>
            in case llm env of
                 None \<Rightarrow> s2\<lparr>exit_reason := Some LLMFailed\<rparr>
               | Some (llm_action, llm_reasoning) \<Rightarrow>
                  (case summarize_action rt llm_action omni_elements of
                     Inl e \<Rightarrow> s2\<lparr>exit_reason := Some (Crashed e)\<rparr>
                   | Inr current_action_summary \<Rightarrow>
                      (let warning =
                             (if last_action_summary s = Some current_action_summary
                              then [LoopWarning current_step current_action_summary] else []);
                           result = execute_action rt llm_action (device env) screen_dims
                                      omni_elements;
                           should_continue = fst result;
                           entry = \<lparr>h_step = current_step,
                                    h_summary = current_action_summary,
                                    h_reasoning = llm_reasoning,
                                    h_action_data = llm_action\<rparr>
                       in s2\<lparr>action_history :=
                                py_slice_from (- ACTION_HISTORY_LENGTH) (action_history s @ [entry]),
                              last_action_summary := Some current_action_summary,
                              exit_reason := (if should_continue then None else Some ExecutorStop),
                              events := events s2 @ warning @
                                [Execute current_step llm_action (snd result),
                                 Append current_step entry]\<rparr>))))"

text \<open>
  The state after the \<^verbatim>\<open>for\<close> loop has gone through at most \<open>n\<close> iterations:
  a \<^verbatim>\<open>break\<close> sets the exit reason, and no later iteration runs.
\<close>

primrec run_steps ::
  "runtime \<Rightarrow> int \<times> int \<Rightarrow> (nat \<Rightarrow> step_env) \<Rightarrow> nat \<Rightarrow> loop_state" where
  "run_steps rt screen_dims env 0 = initial_state"
| "run_steps rt screen_dims env (Suc n) =
     (let s = run_steps rt screen_dims env n
      in if exit_reason s = None then loop_body rt screen_dims (env n) n s else s)"

text \<open>\<^verbatim>\<open>for step in range(config.MAX_STEPS): ... else: ...\<close>\<close>

definition agent_loop :: "runtime \<Rightarrow> int \<times> int \<Rightarrow> (nat \<Rightarrow> step_env) \<Rightarrow> loop_state" where
  "agent_loop rt screen_dims env =
     (let s = run_steps rt screen_dims env MAX_STEPS
      in if exit_reason s = None then s\<lparr>exit_reason := Some MaxStepsReached\<rparr> else s)"

subsection \<open>Reading the events\<close>

fun event_step :: "event \<Rightarrow> nat" where
  "event_step (Screenshot n) = n"
| "event_step (Omniparser n) = n"
| "event_step (LLM n h) = n"
| "event_step (LoopWarning n w) = n"
| "event_step (Execute n a effs) = n"
| "event_step (Append n e) = n"

fun is_screenshot :: "event \<Rightarrow> bool" where
  "is_screenshot (Screenshot n) = True"
| "is_screenshot (Omniparser n) = False"
| "is_screenshot (LLM n h) = False"
| "is_screenshot (LoopWarning n w) = False"
| "is_screenshot (Execute n a effs) = False"
| "is_screenshot (Append n e) = False"

text \<open>The number of iterations begun: each begins with the screenshot.\<close>

definition steps_run :: "loop_state \<Rightarrow> nat" where
  "steps_run s = length (filter is_screenshot (events s))"

text \<open>All entries ever appended, in the order of the appends.\<close>

fun appended :: "event list \<Rightarrow> history_entry list" where
  "appended [] = []"
| "appended (Append n e # evs) = e # appended evs"
| "appended (Screenshot n # evs) = appended evs"
| "appended (Omniparser n # evs) = appended evs"
| "appended (LLM n h # evs) = appended evs"
| "appended (LoopWarning n w # evs) = appended evs"
| "appended (Execute n a effs # evs) = appended evs"

text \<open>
  The summary the loop computes at the 0-based iteration \<open>k\<close>, when it gets that
  far: what the repetition check of the next iteration compares with.
\<close>

definition step_summary :: "runtime \<Rightarrow> (nat \<Rightarrow> step_env) \<Rightarrow> nat \<Rightarrow> string option" where
  "step_summary rt env k =
     (case llm (env k) of
        None \<Rightarrow> None
      | Some (a, r) \<Rightarrow>
         (case summarize_action rt a (fst (omniparser (env k))) of
            Inl e \<Rightarrow> None
          | Inr s \<Rightarrow> Some s))"

section \<open>Concrete inputs\<close>

text \<open>
  A runtime for evaluating concrete calls. Its three functions are stand-ins: the
  quoted form wraps the string in single quotes, which is what Python prints for a
  string without quotes, backslashes or control characters; no concrete call below
  formats a float or converts a string to an integer.
\<close>

definition sample_runtime :: runtime where
  "sample_runtime =
     \<lparr>repr_float = (\<lambda>f. ''<float>''), repr_str = (\<lambda>s. quote @ s @ quote),
      int_of_str = (\<lambda>s. None)\<rparr>"

definition always_ok :: "effect \<Rightarrow> bool" where
  "always_ok c = True"



section \<open>Concrete runs\<close>

text \<open>
  A run in which every screenshot succeeds, the vision call finds nothing and the
  decision is \<^verbatim>\<open>WAIT\<close> for 2 seconds at every step; and the same run with the
  screenshot failing at the 0-based iteration \<open>j\<close>.
\<close>

definition wait_action :: pydict where
  "wait_action = [(''action'', PStr ''WAIT''), (''duration_seconds'', PInt 2)]"

definition wait_env :: "nat \<Rightarrow> step_env" where
  "wait_env k =
     \<lparr>screenshot_ok = True, omniparser = (Some [], PNone),
      llm = Some (wait_action, PStr ''waiting''), device = always_ok\<rparr>"

definition screenshot_fails_at :: "nat \<Rightarrow> nat \<Rightarrow> step_env" where
  "screenshot_fails_at j k =
     \<lparr>screenshot_ok = (k \<noteq> j), omniparser = (Some [], PNone),
      llm = Some (wait_action, PStr ''waiting''), device = always_ok\<rparr>"

section \<open>Properties of execute\_action\<close>

lemma py_eq_PStr [simp]: "py_eq v (PStr s) \<longleftrightarrow> v = PStr s"
  by (cases v) auto

subsection \<open>When the executor signals stop\<close>











subsection \<open>Stale element references\<close>




subsection \<open>No elements and the empty element list\<close>

lemma find_element_no_elements: "find_element None idx = find_element (Some []) idx"
  by (simp add: find_element_def elements_or_empty_def)

lemma summarize_action_no_elements:
  "summarize_action rt a None = summarize_action rt a (Some [])"
  by (simp only: summarize_action_def summarize_try_def find_element_no_elements)

lemma execute_action_no_elements:
  "execute_action rt a adb dims None = execute_action rt a adb dims (Some [])"
  by (simp only: execute_action_def execute_try_def dispatch_def tap_branch_def
      input_text_branch_def find_element_no_elements)

text \<open>
  Claim C10. For every action dictionary, \<open>summarize_action\<close> and
  \<open>execute_action\<close> give the same result on no elements (\<^verbatim>\<open>None\<close>) and on the
  empty list: the same string, the same continue flag and the same calls. So an
  iteration of the loop whose vision call reports no elements does what it does on
  an empty element list.
\<close>

theorem none_elements_as_empty:
  "summarize_action rt a None = summarize_action rt a (Some []) \<and>
   execute_action rt a adb dims None = execute_action rt a adb dims (Some []) \<and>
   loop_body rt dims (env\<lparr>omniparser := (None, p)\<rparr>) n s =
     loop_body rt dims (env\<lparr>omniparser := (Some [], p)\<rparr>) n s"
  by (simp add: summarize_action_no_elements execute_action_no_elements loop_body_def Let_def
      split: option.split sum.split prod.split)

theorem none_elements_as_empty_witness:
  "summarize_action sample_runtime [(''action'', PStr ''TAP''), (''element_index'', PInt 3)] None
     = summarize_action sample_runtime [(''action'', PStr ''TAP''), (''element_index'', PInt 3)]
         (Some []) \<and>
   execute_action sample_runtime [(''action'', PStr ''TAP''), (''element_index'', PInt 3)]
       always_ok (1080, 1920) None
     = execute_action sample_runtime [(''action'', PStr ''TAP''), (''element_index'', PInt 3)]
         always_ok (1080, 1920) (Some [])"
  using none_elements_as_empty [of sample_runtime
      "[(''action'', PStr ''TAP''), (''element_index'', PInt 3)]" always_ok "(1080, 1920)"]
  by simp

subsection \<open>The tap point\<close>







subsection \<open>Swipes\<close>

lemma float_lit_not_None [simp]: "float_lit q \<noteq> PNone"
  by (simp add: float_lit_def)








section \<open>Properties of summarize\_action\<close>

text \<open>The body raises only on an INPUT\_TEXT whose text has no slice.\<close>

lemma summarize_try_raises_iff:
  "(\<exists>e. summarize_try rt a t s els = Inl e) \<longleftrightarrow>
     (t = PStr ''INPUT_TEXT'' \<and>
      (\<exists>e. py_slice_to 20 (dict_get_default a ''text'' (PStr [])) = Inl e))"
  by (auto simp: summarize_try_def Let_def bindE_def split: sum.splits)



section \<open>Properties of the agent loop\<close>

lemma summarize_action_returns: "\<exists>s. summarize_action rt a els = Inr s"
  by (cases "summarize_try rt a (dict_get a ''action'')
               (''Action: '' @ py_str rt (dict_get a ''action'')) els")
     (simp_all add: summarize_action_def Let_def)

lemma summarize_action_Inr:
  obtains s where "summarize_action rt a els = Inr s"
  using summarize_action_returns by blast

lemma loop_body_screenshot_failed:
  assumes "\<not> screenshot_ok env"
  shows "loop_body rt dims env n s =
           s\<lparr>events := events s @ [Screenshot (Suc n)], exit_reason := Some ScreenshotFailed\<rparr>"
  using assms by (simp add: loop_body_def)

lemma loop_body_llm_failed:
  assumes "screenshot_ok env" and "llm env = None"
  shows "loop_body rt dims env n s =
           s\<lparr>events := events s @
                  [Screenshot (Suc n), Omniparser (Suc n), LLM (Suc n) (action_history s)],
              exit_reason := Some LLMFailed\<rparr>"
  using assms by (simp add: loop_body_def)

lemma loop_body_executed:
  assumes "screenshot_ok env" and "llm env = Some (a, r)"
    and "summarize_action rt a (fst (omniparser env)) = Inr cur"
  shows "loop_body rt dims env n s =
           s\<lparr>events := events s @
                  [Screenshot (Suc n), Omniparser (Suc n), LLM (Suc n) (action_history s)] @
                  (if last_action_summary s = Some cur then [LoopWarning (Suc n) cur] else []) @
                  [Execute (Suc n) a
                     (snd (execute_action rt a (device env) dims (fst (omniparser env)))),
                   Append (Suc n)
                     \<lparr>h_step = Suc n, h_summary = cur, h_reasoning = r, h_action_data = a\<rparr>],
              action_history :=
                py_slice_from (- ACTION_HISTORY_LENGTH)
                  (action_history s @
                   [\<lparr>h_step = Suc n, h_summary = cur, h_reasoning = r, h_action_data = a\<rparr>]),
              last_action_summary := Some cur,
              exit_reason :=
                (if fst (execute_action rt a (device env) dims (fst (omniparser env)))
                 then None else Some ExecutorStop)\<rparr>"
  using assms by (simp add: loop_body_def Let_def)

lemma run_steps_Suc_stopped:
  assumes "exit_reason (run_steps rt dims env n) \<noteq> None"
  shows "run_steps rt dims env (Suc n) = run_steps rt dims env n"
  using assms by (simp add: Let_def del: not_None_eq)

lemma run_steps_Suc_live:
  assumes "exit_reason (run_steps rt dims env n) = None"
  shows "run_steps rt dims env (Suc n) = loop_body rt dims (env n) n (run_steps rt dims env n)"
  using assms by (simp add: Let_def)

lemma run_steps_Suc_cases [consumes 0, case_names stopped screenshot llm executed]:
  fixes rt dims env n
  defines "s \<equiv> run_steps rt dims env n"
  obtains
    "exit_reason s \<noteq> None" "run_steps rt dims env (Suc n) = s"
  | "exit_reason s = None" "\<not> screenshot_ok (env n)"
    "run_steps rt dims env (Suc n) =
       s\<lparr>events := events s @ [Screenshot (Suc n)], exit_reason := Some ScreenshotFailed\<rparr>"
  | "exit_reason s = None" "screenshot_ok (env n)" "llm (env n) = None"
    "run_steps rt dims env (Suc n) =
       s\<lparr>events := events s @
              [Screenshot (Suc n), Omniparser (Suc n), LLM (Suc n) (action_history s)],
          exit_reason := Some LLMFailed\<rparr>"
  | a r cur where "exit_reason s = None" "screenshot_ok (env n)" "llm (env n) = Some (a, r)"
    "summarize_action rt a (fst (omniparser (env n))) = Inr cur"
    "run_steps rt dims env (Suc n) =
       s\<lparr>events := events s @
              [Screenshot (Suc n), Omniparser (Suc n), LLM (Suc n) (action_history s)] @
              (if last_action_summary s = Some cur then [LoopWarning (Suc n) cur] else []) @
              [Execute (Suc n) a
                 (snd (execute_action rt a (device (env n)) dims (fst (omniparser (env n))))),
               Append (Suc n)
                 \<lparr>h_step = Suc n, h_summary = cur, h_reasoning = r, h_action_data = a\<rparr>],
          action_history :=
            py_slice_from (- ACTION_HISTORY_LENGTH)
              (action_history s @
               [\<lparr>h_step = Suc n, h_summary = cur, h_reasoning = r, h_action_data = a\<rparr>]),
          last_action_summary := Some cur,
          exit_reason :=
            (if fst (execute_action rt a (device (env n)) dims (fst (omniparser (env n))))
             then None else Some ExecutorStop)\<rparr>"
proof (cases "exit_reason s = None")
  case False
  show ?thesis
  proof (rule that(1) [OF False])
    show "run_steps rt dims env (Suc n) = s"
      unfolding s_def using False [unfolded s_def] by (rule run_steps_Suc_stopped)
  qed
next
  case live: True
  have step: "run_steps rt dims env (Suc n) = loop_body rt dims (env n) n s"
    unfolding s_def using live [unfolded s_def] by (rule run_steps_Suc_live)
  show ?thesis
  proof (cases "screenshot_ok (env n)")
    case False
    show ?thesis
      by (rule that(2) [OF live False]) (simp only: step loop_body_screenshot_failed [OF False])
  next
    case shot: True
    show ?thesis
    proof (cases "llm (env n)")
      case None
      show ?thesis
        by (rule that(3) [OF live shot None]) (simp only: step loop_body_llm_failed [OF shot None])
    next
      case (Some ar)
      obtain a r where ar: "llm (env n) = Some (a, r)" using Some by (cases ar) simp
      obtain cur where cur: "summarize_action rt a (fst (omniparser (env n))) = Inr cur"
        by (rule summarize_action_Inr)
      show ?thesis
        by (rule that(4) [OF live shot ar cur])
          (simp only: step loop_body_executed [OF shot ar cur])
    qed
  qed
qed


declare run_steps.simps(2) [simp del]

lemma run_steps_stopped:
  assumes "exit_reason (run_steps rt dims env n) \<noteq> None"
  shows "run_steps rt dims env (n + k) = run_steps rt dims env n"
proof (induction k)
  case 0
  show ?case by simp
next
  case (Suc k)
  have "exit_reason (run_steps rt dims env (n + k)) \<noteq> None"
    using assms Suc.IH by simp
  then have "run_steps rt dims env (Suc (n + k)) = run_steps rt dims env (n + k)"
    by (rule run_steps_Suc_stopped)
  then show ?case using Suc.IH by simp
qed

lemma event_steps_bounded:
  "ev \<in> set (events (run_steps rt dims env n)) \<Longrightarrow> 1 \<le> event_step ev \<and> event_step ev \<le> n"
proof (induction n arbitrary: ev)
  case 0
  then show ?case by (simp add: initial_state_def)
next
  case (Suc n)
  have "ev \<in> set (events (run_steps rt dims env n)) \<or> event_step ev = Suc n"
  proof (cases rule: run_steps_Suc_cases [of rt dims env n])
    case stopped
    then show ?thesis using Suc.prems by simp
  next
    case screenshot
    then show ?thesis using Suc.prems by auto
  next
    case llm
    then show ?thesis using Suc.prems by auto
  next
    case (executed a r cur)
    then show ?thesis using Suc.prems by (auto split: if_splits)
  qed
  then show ?case using Suc.IH by fastforce
qed

lemma steps_run_count:
  "steps_run (run_steps rt dims env n) \<le> n \<and>
   (exit_reason (run_steps rt dims env n) = None \<longrightarrow> steps_run (run_steps rt dims env n) = n)"
proof (induction n)
  case 0
  show ?case by (simp add: initial_state_def steps_run_def)
next
  case (Suc n)
  show ?case
  proof (cases rule: run_steps_Suc_cases [of rt dims env n])
    case stopped
    then show ?thesis using Suc by auto
  next
    case screenshot
    then show ?thesis using Suc by (simp add: steps_run_def)
  next
    case llm
    then show ?thesis using Suc by (simp add: steps_run_def)
  next
    case (executed a r cur)
    then show ?thesis using Suc by (simp add: steps_run_def)
  qed
qed

lemma appended_append: "appended (xs @ ys) = appended xs @ appended ys"
  by (induction xs rule: appended.induct) simp_all

lemma slice_last_five:
  "py_slice_from (- ACTION_HISTORY_LENGTH) (drop (length A - 5) A @ [e]) =
     drop (length (A @ [e]) - 5) (A @ [e])"
proof (cases "length A \<le> 4")
  case True
  then show ?thesis
    by (simp add: py_slice_from_def ACTION_HISTORY_LENGTH_def)
next
  case False
  then have len: "length (drop (length A - 5) A) = 5" by simp
  have "py_slice_from (- ACTION_HISTORY_LENGTH) (drop (length A - 5) A @ [e]) =
          drop 1 (drop (length A - 5) A @ [e])"
    using len by (simp add: py_slice_from_def ACTION_HISTORY_LENGTH_def)
  also have "\<dots> = drop (1 + (length A - 5)) A @ [e]"
    using len by (simp del: drop_Suc_Cons length_drop add: drop_Suc)
  also have "1 + (length A - 5) = length (A @ [e]) - 5"
    using False by simp
  also have "drop (length (A @ [e]) - 5) A @ [e] = drop (length (A @ [e]) - 5) (A @ [e])"
    using False by simp
  finally show ?thesis .
qed


lemma history_is_suffix:
  "action_history (run_steps rt dims env n) =
     drop (length (appended (events (run_steps rt dims env n))) - 5)
       (appended (events (run_steps rt dims env n)))"
proof (induction n)
  case 0
  show ?case by (simp add: initial_state_def)
next
  case (Suc n)
  show ?case
  proof (cases rule: run_steps_Suc_cases [of rt dims env n])
    case stopped
    then show ?thesis using Suc by simp
  next
    case screenshot
    then show ?thesis using Suc by (simp add: appended_append)
  next
    case llm
    then show ?thesis using Suc by (simp add: appended_append)
  next
    case (executed a r cur)
    let ?A = "appended (events (run_steps rt dims env n))"
    let ?e = "\<lparr>h_step = Suc n, h_summary = cur, h_reasoning = r, h_action_data = a\<rparr>"
    have ev: "appended (events (run_steps rt dims env (Suc n))) = ?A @ [?e]"
      using executed(5) by (simp add: appended_append)
    have "action_history (run_steps rt dims env (Suc n)) =
            py_slice_from (- ACTION_HISTORY_LENGTH) (drop (length ?A - 5) ?A @ [?e])"
      using executed(5) Suc by simp
    also have "\<dots> = drop (length (?A @ [?e]) - 5) (?A @ [?e])"
      by (rule slice_last_five)
    finally show ?thesis by (simp only: ev)
  qed
qed

lemma appended_steps:
  "map h_step (appended (events (run_steps rt dims env n))) =
     [1..<Suc (length (appended (events (run_steps rt dims env n))))] \<and>
   (exit_reason (run_steps rt dims env n) = None \<longrightarrow>
      length (appended (events (run_steps rt dims env n))) = n)"
proof (induction n)
  case 0
  show ?case by (simp add: initial_state_def)
next
  case (Suc n)
  show ?case
  proof (cases rule: run_steps_Suc_cases [of rt dims env n])
    case stopped
    then show ?thesis using Suc by simp
  next
    case screenshot
    then show ?thesis using Suc by (simp add: appended_append)
  next
    case llm
    then show ?thesis using Suc by (simp add: appended_append)
  next
    case (executed a r cur)
    then show ?thesis using Suc by (simp add: appended_append)
  qed
qed

text \<open>
  Claim C4. After every number of iterations of the agent loop, the action history
  holds at most \<open>ACTION_HISTORY_LENGTH\<close> (5) entries; it is the last 5 of the
  entries appended so far, in the order of the appends (oldest first); and once
  more than 5 entries have been appended, the first one appended is no longer in it.
\<close>

theorem history_bounded_window:
  "length (action_history (run_steps rt dims env n)) \<le> nat ACTION_HISTORY_LENGTH \<and>
   action_history (run_steps rt dims env n) =
     drop (length (appended (events (run_steps rt dims env n))) - nat ACTION_HISTORY_LENGTH)
       (appended (events (run_steps rt dims env n))) \<and>
   (nat ACTION_HISTORY_LENGTH < length (appended (events (run_steps rt dims env n))) \<longrightarrow>
      hd (appended (events (run_steps rt dims env n)))
        \<notin> set (action_history (run_steps rt dims env n)))"
proof -
  let ?A = "appended (events (run_steps rt dims env n))"
  let ?H = "action_history (run_steps rt dims env n)"
  have K: "nat ACTION_HISTORY_LENGTH = 5"
    by (simp add: ACTION_HISTORY_LENGTH_def)
  have H: "?H = drop (length ?A - 5) ?A"
    by (rule history_is_suffix)
  have steps: "map h_step ?A = [1..<Suc (length ?A)]"
    using appended_steps [of rt dims env n] by simp
  have "hd ?A \<notin> set ?H" if long: "5 < length ?A"
  proof
    assume "hd ?A \<in> set ?H"
    then have "h_step (hd ?A) \<in> set (map h_step (drop (length ?A - 5) ?A))"
      using H by simp
    also have "map h_step (drop (length ?A - 5) ?A) = drop (length ?A - 5) [1..<Suc (length ?A)]"
      by (simp only: drop_map [symmetric] steps)
    also have "\<dots> = [1 + (length ?A - 5)..<Suc (length ?A)]"
      by (simp only: drop_upt)
    finally have "1 + (length ?A - 5) \<le> h_step (hd ?A)"
      by (simp del: upt_Suc)
    moreover have hm: "h_step (hd ?A) = hd (map h_step ?A)"
      using long by (cases ?A) simp_all
    have u: "[1..<Suc (length ?A)] = 1 # [Suc 1..<Suc (length ?A)]"
      by (rule upt_conv_Cons) (use long in linarith)
    have "h_step (hd ?A) = 1"
      by (simp only: hm steps u list.sel)
    ultimately show False using long by simp
  qed
  then show ?thesis
    using H by (simp add: K)
qed

text \<open>
  Seven steps of the run that always waits: seven entries appended, the history
  holds those of steps 3 to 7, and the entry of step 1 is gone.
\<close>

theorem history_bounded_window_witness:
  "nat ACTION_HISTORY_LENGTH
     < length (appended (events (run_steps sample_runtime (1080, 1920) wait_env 7))) \<and>
   hd (appended (events (run_steps sample_runtime (1080, 1920) wait_env 7)))
     \<notin> set (action_history (run_steps sample_runtime (1080, 1920) wait_env 7)) \<and>
   map h_step (action_history (run_steps sample_runtime (1080, 1920) wait_env 7))
     = [3, 4, 5, 6, 7]"
proof -
  have a: "map h_step (appended (events (run_steps sample_runtime (1080, 1920) wait_env 7)))
             = [1, 2, 3, 4, 5, 6, 7]"
    by code_simp
  have l: "nat ACTION_HISTORY_LENGTH
     < length (appended (events (run_steps sample_runtime (1080, 1920) wait_env 7)))"
    using arg_cong [OF a, of length] by (simp add: ACTION_HISTORY_LENGTH_def)
  have h: "map h_step (action_history (run_steps sample_runtime (1080, 1920) wait_env 7))
     = [3, 4, 5, 6, 7]"
    by code_simp
  have "hd (appended (events (run_steps sample_runtime (1080, 1920) wait_env 7)))
     \<notin> set (action_history (run_steps sample_runtime (1080, 1920) wait_env 7))"
    using history_bounded_window [of sample_runtime "(1080, 1920)" wait_env 7] l by blast
  then show ?thesis
    using l h by blast
qed

subsection \<open>The repetition warning\<close>

lemma last_summary_is_previous:
  "last_action_summary (run_steps rt dims env 0) = None"
  "exit_reason (run_steps rt dims env (Suc n)) = None \<Longrightarrow>
     last_action_summary (run_steps rt dims env (Suc n)) = step_summary rt env n \<and>
     step_summary rt env n \<noteq> None"
proof -
  show "last_action_summary (run_steps rt dims env 0) = None"
    by (simp add: initial_state_def)
  assume live: "exit_reason (run_steps rt dims env (Suc n)) = None"
  show "last_action_summary (run_steps rt dims env (Suc n)) = step_summary rt env n \<and>
     step_summary rt env n \<noteq> None"
  proof (cases rule: run_steps_Suc_cases [of rt dims env n])
    case stopped
    then show ?thesis using live by simp
  next
    case screenshot
    then show ?thesis using live by simp
  next
    case llm
    then show ?thesis using live by simp
  next
    case (executed a r cur)
    then show ?thesis by (simp add: step_summary_def)
  qed
qed

text \<open>
  Claim C5. At every step the loop reaches with a screenshot and a decision, the
  repetition warning is logged if and only if the step is not the first and its
  summary string equals the summary string of the step before; and whether or not it
  is logged, the step's action is executed as decided: the execution recorded is
  that of \<open>execute_action\<close> on the action, and the loop goes on exactly when the
  executor says continue.
\<close>

theorem loop_warning_iff_repeat:
  assumes "exit_reason (run_steps rt dims env n) = None"
    and "screenshot_ok (env n)"
    and "llm (env n) = Some (a, r)"
  shows "\<exists>cur. step_summary rt env n = Some cur \<and>
           ((\<exists>w. LoopWarning (Suc n) w \<in> set (events (run_steps rt dims env (Suc n))))
              \<longleftrightarrow> 0 < n \<and> step_summary rt env (n - 1) = Some cur) \<and>
           Execute (Suc n) a
               (snd (execute_action rt a (device (env n)) dims (fst (omniparser (env n)))))
             \<in> set (events (run_steps rt dims env (Suc n))) \<and>
           exit_reason (run_steps rt dims env (Suc n)) =
             (if fst (execute_action rt a (device (env n)) dims (fst (omniparser (env n))))
              then None else Some ExecutorStop)"
proof (cases rule: run_steps_Suc_cases [of rt dims env n])
  case stopped
  then show ?thesis using assms by simp
next
  case screenshot
  then show ?thesis using assms by simp
next
  case llm
  then show ?thesis using assms by simp
next
  case (executed a' r' cur)
  have a: "a' = a" "r' = r" using executed(3) assms(3) by simp_all
  have cur: "step_summary rt env n = Some cur"
    using executed(3,4) by (simp add: step_summary_def)
  have old: "LoopWarning (Suc n) w \<notin> set (events (run_steps rt dims env n))" for w
    using event_steps_bounded [of "LoopWarning (Suc n) w" rt dims env n] by auto
  have prev: "last_action_summary (run_steps rt dims env n) = Some cur \<longleftrightarrow>
                0 < n \<and> step_summary rt env (n - 1) = Some cur"
  proof (cases n)
    case 0
    then show ?thesis by (simp add: initial_state_def)
  next
    case (Suc m)
    then show ?thesis
      using last_summary_is_previous(2) [of rt dims env m] assms(1) by simp
  qed
  have warn: "(\<exists>w. LoopWarning (Suc n) w \<in> set (events (run_steps rt dims env (Suc n))))
                \<longleftrightarrow> last_action_summary (run_steps rt dims env n) = Some cur"
    using executed(5) old by auto
  show ?thesis
    using cur warn prev executed(5) a by simp
qed


text \<open>
  Step 2 of the run that waits: the warning is logged, and the wait is executed.
\<close>

theorem loop_warning_iff_repeat_witness:
  "(\<exists>w. LoopWarning 2 w
        \<in> set (events (run_steps sample_runtime (1080, 1920) wait_env 2))) \<and>
   Execute 2 wait_action [Wait (PInt 2)]
     \<in> set (events (run_steps sample_runtime (1080, 1920) wait_env 2))"
proof -
  have live: "exit_reason (run_steps sample_runtime (1080, 1920) wait_env 1) = None"
    by code_simp
  have s: "step_summary sample_runtime wait_env k = Some ''Action: WAIT (2s)''" for k
    unfolding step_summary_def wait_env_def by code_simp
  have e: "snd (execute_action sample_runtime wait_action always_ok (1080, 1920) (Some []))
             = [Wait (PInt 2)]"
    by code_simp
  show ?thesis
    using loop_warning_iff_repeat
      [of sample_runtime "(1080, 1920)" wait_env 1 wait_action "PStr ''waiting''", OF live]
    by (simp add: s e wait_env_def numeral_2_eq_2)
qed

subsection \<open>Termination of the loop\<close>

lemma agent_loop_fields:
  "events (agent_loop rt dims env) = events (run_steps rt dims env MAX_STEPS)"
  "action_history (agent_loop rt dims env) = action_history (run_steps rt dims env MAX_STEPS)"
  "steps_run (agent_loop rt dims env) = steps_run (run_steps rt dims env MAX_STEPS)"
  "exit_reason (agent_loop rt dims env) =
     (case exit_reason (run_steps rt dims env MAX_STEPS) of
        None \<Rightarrow> Some MaxStepsReached | Some x \<Rightarrow> Some x)"
  by (auto simp: agent_loop_def Let_def steps_run_def)

lemma all_steps_live:
  assumes "\<forall>i<N. screenshot_ok (env i) \<and>
             (\<exists>a r. llm (env i) = Some (a, r) \<and>
                fst (execute_action rt a (device (env i)) dims (fst (omniparser (env i)))))"
  shows "n \<le> N \<Longrightarrow> exit_reason (run_steps rt dims env n) = None"
proof (induction n)
  case 0
  show ?case by (simp add: initial_state_def)
next
  case (Suc n)
  then have n: "n < N" and live: "exit_reason (run_steps rt dims env n) = None" by simp_all
  from assms n obtain a r where ok: "screenshot_ok (env n)" "llm (env n) = Some (a, r)"
    "fst (execute_action rt a (device (env n)) dims (fst (omniparser (env n))))"
    by blast
  show ?case
  proof (cases rule: run_steps_Suc_cases [of rt dims env n])
    case stopped
    then show ?thesis using live by simp
  next
    case screenshot
    then show ?thesis using ok by simp
  next
    case llm
    then show ?thesis using ok by simp
  next
    case (executed a' r' cur)
    then show ?thesis using ok by simp
  qed
qed

text \<open>
  Claim C7. The agent loop never begins more than \<open>MAX_STEPS\<close> (15) steps; and
  in every run where, at each of the 15 steps, the screenshot succeeds, the decision
  collaborator returns an action and the executor says continue on it, the loop
  performs exactly 15 steps and leaves through the \<^verbatim>\<open>else\<close> of the \<^verbatim>\<open>for\<close>,
  the maximum-steps exit.
\<close>

theorem agent_loop_max_steps:
  "steps_run (agent_loop rt dims env) \<le> MAX_STEPS \<and>
   ((\<forall>i<MAX_STEPS. screenshot_ok (env i) \<and>
       (\<exists>a r. llm (env i) = Some (a, r) \<and>
          fst (execute_action rt a (device (env i)) dims (fst (omniparser (env i))))))
    \<longrightarrow> steps_run (agent_loop rt dims env) = MAX_STEPS \<and>
        exit_reason (agent_loop rt dims env) = Some MaxStepsReached)"
proof (intro conjI impI)
  show "steps_run (agent_loop rt dims env) \<le> MAX_STEPS"
    using steps_run_count [of rt dims env MAX_STEPS] by (simp add: agent_loop_fields)
next
  assume ok: "\<forall>i<MAX_STEPS. screenshot_ok (env i) \<and>
       (\<exists>a r. llm (env i) = Some (a, r) \<and>
          fst (execute_action rt a (device (env i)) dims (fst (omniparser (env i)))))"
  have live: "exit_reason (run_steps rt dims env MAX_STEPS) = None"
    using all_steps_live [OF ok, of MAX_STEPS] by simp
  show "steps_run (agent_loop rt dims env) = MAX_STEPS"
    using steps_run_count [of rt dims env MAX_STEPS] live by (simp add: agent_loop_fields)
  show "exit_reason (agent_loop rt dims env) = Some MaxStepsReached"
    using live by (simp add: agent_loop_fields)
qed

lemma wait_continues:
  "fst (execute_action sample_runtime wait_action always_ok (1080, 1920) (Some []))"
  by code_simp

text \<open>The run that waits at every step: 15 steps, then the maximum-steps exit.\<close>

theorem agent_loop_max_steps_witness:
  "steps_run (agent_loop sample_runtime (1080, 1920) wait_env) = 15 \<and>
   exit_reason (agent_loop sample_runtime (1080, 1920) wait_env) = Some MaxStepsReached"
proof -
  have "\<forall>i<MAX_STEPS. screenshot_ok (wait_env i) \<and>
       (\<exists>a r. llm (wait_env i) = Some (a, r) \<and>
          fst (execute_action sample_runtime a (device (wait_env i)) (1080, 1920)
                 (fst (omniparser (wait_env i)))))"
    using wait_continues by (simp add: wait_env_def)
  then show ?thesis
    using agent_loop_max_steps [of sample_runtime "(1080, 1920)" wait_env]
    by (simp add: MAX_STEPS_def)
qed

text \<open>
  Claim C8. If the loop reaches a step and the screenshot of that step fails, the
  loop ends in the screenshot-failure exit: the only thing done at that step is the
  screenshot attempt, the history is what it was before the step, and no event of
  that step or a later one exists besides that attempt: no vision analysis, no
  decision request, no execution, no append.
\<close>

theorem screenshot_failure_stops:
  assumes "n < MAX_STEPS"
    and "exit_reason (run_steps rt dims env n) = None"
    and "\<not> screenshot_ok (env n)"
  shows "exit_reason (agent_loop rt dims env) = Some ScreenshotFailed \<and>
         events (agent_loop rt dims env) = events (run_steps rt dims env n) @ [Screenshot (Suc n)] \<and>
         action_history (agent_loop rt dims env) = action_history (run_steps rt dims env n) \<and>
         (\<forall>ev \<in> set (events (agent_loop rt dims env)).
            Suc n \<le> event_step ev \<longrightarrow> ev = Screenshot (Suc n))"
proof -
  let ?s = "run_steps rt dims env n"
  have step: "run_steps rt dims env (Suc n) =
      ?s\<lparr>events := events ?s @ [Screenshot (Suc n)], exit_reason := Some ScreenshotFailed\<rparr>"
    using run_steps_Suc_live [OF assms(2)] loop_body_screenshot_failed [OF assms(3)]
    by simp
  have "run_steps rt dims env (Suc n + (MAX_STEPS - Suc n)) = run_steps rt dims env (Suc n)"
    by (rule run_steps_stopped) (simp add: step)
  then have final: "run_steps rt dims env MAX_STEPS = run_steps rt dims env (Suc n)"
    using assms(1) by simp
  have old: "\<not> Suc n \<le> event_step ev" if "ev \<in> set (events ?s)" for ev
    using event_steps_bounded [OF that] by simp
  show ?thesis
    by (auto simp: agent_loop_fields final step dest: old)
qed

lemma third_screenshot_reached:
  "exit_reason (run_steps sample_runtime (1080, 1920) (screenshot_fails_at 2) 2) = None"
  by code_simp

text \<open>The screenshot fails at step 3 of the run that waits.\<close>

theorem screenshot_failure_stops_witness:
  "exit_reason (agent_loop sample_runtime (1080, 1920) (screenshot_fails_at 2))
     = Some ScreenshotFailed \<and>
   events (agent_loop sample_runtime (1080, 1920) (screenshot_fails_at 2))
     = events (run_steps sample_runtime (1080, 1920) (screenshot_fails_at 2) 2) @ [Screenshot 3]"
proof -
  have m: "2 < MAX_STEPS"
    by (simp add: MAX_STEPS_def)
  have h: "\<not> screenshot_ok (screenshot_fails_at 2 2)"
    by (simp add: screenshot_fails_at_def)
  note t = screenshot_failure_stops [OF m third_screenshot_reached h]
  have e: "Suc 2 = 3" by simp
  show ?thesis
    using t [THEN conjunct1] t [THEN conjunct2, THEN conjunct1] by (simp only: e simp_thms)
qed

end
